theory Spec2Isabelle
  imports Main
begin

section \<open>The blog platform contract (contract.ts, models.ts)\<close>

text \<open>
  A shallow embedding of the NEAR blog contract. The contract keeps four collections
  (moderators, authors, denylist, blog posts); every exported method reads the call
  context of the host (signer, deposit, random seed, block timestamp), runs its
  assertions and then changes the collections.

  A call is a function from the contract state to a result and the state reached when
  the method returned or threw: \<open>Inl\<close> is the error of a failed \<open>assert\<close>, \<open>Inr\<close> the
  returned value. The state component of a failed call is the state at the moment of the
  throw, so "a rejected call changes nothing" is a statement about the code and not a
  convention of the model. Errors thrown inside near-sdk-js (by the \<open>@call\<close> decorator,
  by the serializer, by an internal assertion of a collection) are errors of the call
  like the contract's own.
\<close>

subsection \<open>Host context and errors\<close>

type_synonym AccountId = string

text \<open>What \<open>near.*\<close> returns during one call.\<close>

record near_env =
  signerAccountId :: AccountId
  currentAccountId :: AccountId
  attachedDeposit :: nat
  randomSeed :: string
  blockTimestamp :: nat

text \<open>
  One constructor for each message an \<open>assert\<close> of the source throws, and one for each
  error that near-sdk-js or the JavaScript runtime throws under these calls.
\<close>

datatype error =
    ErrOneYocto
  | ErrNotAuthor
  | ErrDenylisted
  | ErrNoPermission
  | ErrNotFound
  | ErrNoPermissionRemove
  | ErrNotPayable
  | ErrSerializerNotAFunction
  | ErrInvalidTime
  | ErrInconsistentState

fun error_message :: "error \<Rightarrow> string" where
  "error_message ErrOneYocto = ''You need to deposit exactly 1yoctoNEAR!''"
| "error_message ErrNotAuthor = ''You are not registered as an author, please register!''"
| "error_message ErrDenylisted = ''This account is in the denylist!''"
| "error_message ErrNoPermission = ''You do not have permission to perform this action!''"
| "error_message ErrNotFound = ''The requested blog post doesn't exist!''"
| "error_message ErrNoPermissionRemove = ''You don't have permission to perform this action!''"
| "error_message ErrNotPayable = ''Function is not payable''"
| "error_message ErrSerializerNotAFunction = ''serializer is not a function''"
| "error_message ErrInvalidTime = ''Invalid time value''"
| "error_message ErrInconsistentState =
     ''The collection is an inconsistent state. Did previous smart contract execution terminate unexpectedly?''"

type_synonym ('s, 'a) call = "'s \<Rightarrow> (error + 'a) \<times> 's"

definition ok :: "'a \<Rightarrow> ('s, 'a) call" where
  "ok x s = (Inr x, s)"

definition andThen :: "('s, 'a) call \<Rightarrow> ('a \<Rightarrow> ('s, 'b) call) \<Rightarrow> ('s, 'b) call" where
  "andThen m f s = (case m s of (Inl e, s') \<Rightarrow> (Inl e, s') | (Inr x, s') \<Rightarrow> f x s')"

definition read_state :: "('s \<Rightarrow> 'a) \<Rightarrow> ('s, 'a) call" where
  "read_state g s = (Inr (g s), s)"

definition modify :: "('s \<Rightarrow> 's) \<Rightarrow> ('s, unit) call" where
  "modify g s = (Inr (), g s)"

definition throw :: "error \<Rightarrow> ('s, 'a) call" where
  "throw e s = (Inl e, s)"

text \<open>\<open>assert(condition, message)\<close> of near-sdk-js: throws when the condition is false.\<close>

definition near_assert :: "bool \<Rightarrow> error \<Rightarrow> ('s, unit) call" where
  "near_assert c e = (if c then ok () else throw e)"

text \<open>
  The \<open>@call\<close> decorator: a method declared without \<open>payableFunction: true\<close> throws when
  a deposit is attached, before its body runs.
\<close>

definition call_decorator :: "bool \<Rightarrow> near_env \<Rightarrow> ('s, unit) call" where
  "call_decorator payableFunction e =
     near_assert (payableFunction \<or> attachedDeposit e = 0) ErrNotPayable"

text \<open>\<open>Array.prototype.forEach\<close> with a callback that may throw or change the state.\<close>

fun forEach :: "'a list \<Rightarrow> ('a \<Rightarrow> ('s, unit) call) \<Rightarrow> ('s, unit) call" where
  "forEach [] f = ok ()"
| "forEach (x # xs) f = andThen (f x) (\<lambda>_. forEach xs f)"

subsection \<open>The collections of near-sdk-js\<close>

text \<open>
  \<open>UnorderedSet\<close> keeps its elements in a vector, in insertion order; \<open>remove\<close> moves the
  last element into the freed slot (swap-remove). \<open>UnorderedMap\<close> keeps its keys the same
  way, with one value per key. Both are lists here, in vector order. The library is not
  part of the repository; the functions below follow its behaviour at the call sites of
  the contract.
\<close>

definition swap_remove :: "'a list \<Rightarrow> nat \<Rightarrow> 'a list" where
  "swap_remove xs i = (if i < length xs then butlast (xs[i := last xs]) else xs)"

fun index_of :: "'a list \<Rightarrow> 'a \<Rightarrow> nat" where
  "index_of [] x = 0"
| "index_of (y # ys) x = (if y = x then 0 else Suc (index_of ys x))"

type_synonym 'a UnorderedSet = "'a list"

definition uset_contains :: "'a UnorderedSet \<Rightarrow> 'a \<Rightarrow> bool" where
  "uset_contains s x = List.member s x"

definition uset_set :: "'a UnorderedSet \<Rightarrow> 'a \<Rightarrow> 'a UnorderedSet" where
  "uset_set s x = (if uset_contains s x then s else s @ [x])"

definition uset_extend :: "'a UnorderedSet \<Rightarrow> 'a list \<Rightarrow> 'a UnorderedSet" where
  "uset_extend s xs = foldl uset_set s xs"

text \<open>
  \<open>UnorderedSet.remove\<close> on a set of account ids. An absent element is left alone; the
  only element is removed; otherwise the last element is read and asserted to be truthy
  before anything is written, which fails when the last element is the empty string.
\<close>

definition uset_remove :: "AccountId UnorderedSet \<Rightarrow> AccountId \<Rightarrow> error + AccountId UnorderedSet" where
  "uset_remove s x =
     (if \<not> uset_contains s x then Inr s
      else if length s = 1 then Inr (swap_remove s (index_of s x))
      else if last s = [] then Inl ErrInconsistentState
      else Inr (swap_remove s (index_of s x)))"

type_synonym ('k, 'v) UnorderedMap = "('k \<times> 'v) list"

definition umap_get :: "('k, 'v) UnorderedMap \<Rightarrow> 'k \<Rightarrow> 'v option" where
  "umap_get m k = map_of m k"

fun umap_set :: "('k, 'v) UnorderedMap \<Rightarrow> 'k \<Rightarrow> 'v \<Rightarrow> ('k, 'v) UnorderedMap" where
  "umap_set [] k v = [(k, v)]"
| "umap_set ((k', v') # m) k v = (if k' = k then (k, v) # m else (k', v') # umap_set m k v)"

definition umap_remove :: "('k, 'v) UnorderedMap \<Rightarrow> 'k \<Rightarrow> ('k, 'v) UnorderedMap" where
  "umap_remove m k =
     (case map_of m k of None \<Rightarrow> m | Some _ \<Rightarrow> swap_remove m (index_of (map fst m) k))"

subsection \<open>models.ts: the blog post\<close>

text \<open>
  A \<open>Date\<close> holds a time value of at most 8.64e15 milliseconds or is invalid.
  \<open>new Date(Number(t))\<close> for a block timestamp \<open>t\<close> is valid up to that bound (which is
  below 2^53, so \<open>Number\<close> is exact there) and invalid above it.
\<close>

datatype date = Date nat | Invalid_Date

definition new_Date :: "nat \<Rightarrow> date" where
  "new_Date t = (if t \<le> 8640000000000000 then Date t else Invalid_Date)"

record BlogPost =
  title :: string
  ipfs_cid :: string
  thumnbnail_cid :: string
  post_id :: string
  author_id :: AccountId
  created_at :: date
  last_updated_at :: date

text \<open>\<open>new BlogPost(title, ipfs_cid, thumnbnail_cid)\<close> with the four defaulted parameters.\<close>

definition new_BlogPost :: "near_env \<Rightarrow> string \<Rightarrow> string \<Rightarrow> string \<Rightarrow> BlogPost" where
  "new_BlogPost e t c th =
     \<lparr> title = t, ipfs_cid = c, thumnbnail_cid = th,
       post_id = randomSeed e, author_id = signerAccountId e,
       created_at = new_Date (blockTimestamp e),
       last_updated_at = new_Date (blockTimestamp e) \<rparr>"

text \<open>\<open>BlogPost.reconstruct\<close>; \<open>new Date(d)\<close> of a \<open>Date\<close> is a \<open>Date\<close> with the same time value.\<close>

definition reconstruct :: "BlogPost \<Rightarrow> BlogPost" where
  "reconstruct blog =
     \<lparr> title = title blog, ipfs_cid = ipfs_cid blog, thumnbnail_cid = thumnbnail_cid blog,
       post_id = post_id blog, author_id = author_id blog,
       created_at = created_at blog, last_updated_at = last_updated_at blog \<rparr>"

text \<open>
  Storing a value. \<open>serialize\<close> of near-sdk-js writes a \<open>Date\<close> field with
  \<open>toISOString\<close>, which throws for an invalid date; a valid post is read back as it was
  stored. \<open>serializeValueWithOptions(value, options)\<close> takes the serializer from the
  options object: the default object, used when no options are passed, has one; an
  options object written as \<open>{ reconstructor: ... }\<close> has none, and the call of the
  missing serializer throws a \<open>TypeError\<close>.
\<close>

definition serialize :: "BlogPost \<Rightarrow> error + BlogPost" where
  "serialize v =
     (if created_at v = Invalid_Date \<or> last_updated_at v = Invalid_Date then Inl ErrInvalidTime
      else Inr v)"

datatype options = Default_options | Reconstructor_only

definition serializeValueWithOptions :: "BlogPost \<Rightarrow> options \<Rightarrow> error + BlogPost" where
  "serializeValueWithOptions v opts =
     (case opts of
        Default_options \<Rightarrow> serialize v
      | Reconstructor_only \<Rightarrow> Inl ErrSerializerNotAFunction)"

text \<open>
  \<open>UpdateBlogPost\<close>: the patch object as it arrives, its own keys in order with their
  values. The declared type has string values only; the keys are whatever the caller
  sent, which is why \<open>update\<close> checks them.
\<close>

type_synonym UpdateBlogPost = "(string \<times> string) list"

definition Object_keys :: "UpdateBlogPost \<Rightarrow> string list" where
  "Object_keys obj = map fst obj"

text \<open>\<open>obj[key]\<close>: \<open>None\<close> is JavaScript's \<open>undefined\<close>.\<close>

definition get_prop :: "UpdateBlogPost \<Rightarrow> string \<Rightarrow> string option" where
  "get_prop obj key = map_of obj key"

text \<open>Truthiness of a string-valued property: \<open>undefined\<close> and the empty string are falsy.\<close>

fun truthy :: "string option \<Rightarrow> bool" where
  "truthy None = False"
| "truthy (Some v) = (v \<noteq> [])"

definition updatable_keys :: "string list" where
  "updatable_keys = [''author_id'', ''title'', ''ipfs_cid'', ''thumnbnail_cid'']"

text \<open>
  \<open>this[key] = updatedBlog[key]\<close> for one key. \<open>update\<close> reaches it with one of the four
  keys of \<open>updatable_keys\<close>, taken from the patch itself; in the other cases the post is
  returned as it is.
\<close>

definition assign :: "UpdateBlogPost \<Rightarrow> BlogPost \<Rightarrow> string \<Rightarrow> BlogPost" where
  "assign updatedBlog this key =
     (case get_prop updatedBlog key of
        None \<Rightarrow> this
      | Some v \<Rightarrow>
          if key = ''author_id'' then this\<lparr>author_id := v\<rparr>
          else if key = ''title'' then this\<lparr>title := v\<rparr>
          else if key = ''ipfs_cid'' then this\<lparr>ipfs_cid := v\<rparr>
          else if key = ''thumnbnail_cid'' then this\<lparr>thumnbnail_cid := v\<rparr>
          else this)"

definition keys_accepted :: "string list \<Rightarrow> bool" where
  "keys_accepted keysToUpdate \<longleftrightarrow>
     length keysToUpdate > 0 \<and> list_all (\<lambda>key. List.member updatable_keys key) keysToUpdate"

text \<open>
  \<open>BlogPost.update\<close>. It changes the post object in memory; the caller stores it.
\<close>

definition BlogPost_update :: "near_env \<Rightarrow> UpdateBlogPost \<Rightarrow> BlogPost \<Rightarrow> error + BlogPost" where
  "BlogPost_update e updatedBlog this =
     (if signerAccountId e \<noteq> author_id this then Inl ErrNoPermission
      else
        let keysToUpdate = Object_keys updatedBlog in
        if keys_accepted keysToUpdate
        then Inr (foldl (assign updatedBlog) this keysToUpdate)
        else Inr this)"

subsection \<open>contract.ts: the contract\<close>

record BlogContract =
  moderators :: "AccountId UnorderedSet"
  authors :: "AccountId UnorderedSet"
  denylist :: "AccountId UnorderedSet"
  blog_posts :: "(string, BlogPost) UnorderedMap"

definition assert_one_yocto :: "near_env \<Rightarrow> (BlogContract, unit) call" where
  "assert_one_yocto e = near_assert (attachedDeposit e = 1) ErrOneYocto"

definition assert_is_author :: "AccountId \<Rightarrow> (BlogContract, unit) call" where
  "assert_is_author account_id =
     andThen (read_state authors) (\<lambda>a. near_assert (uset_contains a account_id) ErrNotAuthor)"

definition assert_not_in_deny_list :: "AccountId \<Rightarrow> (BlogContract, unit) call" where
  "assert_not_in_deny_list account_id =
     andThen (read_state denylist) (\<lambda>d. near_assert (\<not> uset_contains d account_id) ErrDenylisted)"

definition assert_owner_or_moderator :: "near_env \<Rightarrow> (BlogContract, unit) call" where
  "assert_owner_or_moderator e =
     andThen (read_state moderators) (\<lambda>m.
       near_assert (signerAccountId e = currentAccountId e \<or> uset_contains m (signerAccountId e))
         ErrNoPermission)"

definition add_moderators :: "near_env \<Rightarrow> AccountId list \<Rightarrow> (BlogContract, unit) call" where
  "add_moderators e mods =
     andThen (assert_one_yocto e) (\<lambda>_.
     andThen (assert_not_in_deny_list (signerAccountId e)) (\<lambda>_.
     andThen (assert_owner_or_moderator e) (\<lambda>_.
     andThen (forEach mods (\<lambda>moderator. assert_not_in_deny_list moderator)) (\<lambda>_.
       modify (\<lambda>s. s\<lparr>moderators := uset_extend (moderators s) mods\<rparr>)))))"

text \<open>\<open>this.moderators.remove(moderator)\<close>.\<close>

definition moderators_remove :: "AccountId \<Rightarrow> (BlogContract, unit) call" where
  "moderators_remove moderator =
     andThen (read_state moderators) (\<lambda>m.
       case uset_remove m moderator of
         Inl err \<Rightarrow> throw err
       | Inr m' \<Rightarrow> modify (\<lambda>s. s\<lparr>moderators := m'\<rparr>))"

definition remove_moderators :: "near_env \<Rightarrow> AccountId list \<Rightarrow> (BlogContract, unit) call" where
  "remove_moderators e mods =
     andThen (assert_one_yocto e) (\<lambda>_.
     andThen (assert_owner_or_moderator e) (\<lambda>_.
       forEach mods (\<lambda>moderator. moderators_remove moderator)))"

definition register :: "near_env \<Rightarrow> (BlogContract, unit) call" where
  "register e =
     andThen (assert_one_yocto e) (\<lambda>_.
     andThen (assert_not_in_deny_list (signerAccountId e)) (\<lambda>_.
       modify (\<lambda>s. s\<lparr>authors := uset_set (authors s) (signerAccountId e)\<rparr>)))"

text \<open>
  \<open>this.blog_posts.set(key, value, options)\<close>: the value is serialized first, and the
  map is written only when that has returned.
\<close>

definition blog_posts_set :: "string \<Rightarrow> BlogPost \<Rightarrow> options \<Rightarrow> (BlogContract, unit) call" where
  "blog_posts_set key v opts =
     (case serializeValueWithOptions v opts of
        Inl err \<Rightarrow> throw err
      | Inr stored \<Rightarrow> modify (\<lambda>s. s\<lparr>blog_posts := umap_set (blog_posts s) key stored\<rparr>))"

definition create_blog_post ::
  "near_env \<Rightarrow> string \<Rightarrow> string \<Rightarrow> string \<Rightarrow> (BlogContract, BlogPost) call" where
  "create_blog_post e t c th =
     andThen (assert_is_author (signerAccountId e)) (\<lambda>_.
       let blogPost = new_BlogPost e t c th in
       andThen (blog_posts_set (post_id blogPost) blogPost Default_options)
         (\<lambda>_. ok blogPost))"

text \<open>\<open>this.blog_posts.get(blog_id, {reconstructor})\<close>: \<open>None\<close> is \<open>null\<close>.\<close>

definition get_reconstructed :: "string \<Rightarrow> (BlogContract, BlogPost option) call" where
  "get_reconstructed blog_id =
     read_state (\<lambda>s. map_option reconstruct (umap_get (blog_posts s) blog_id))"

definition update_blog_post ::
  "near_env \<Rightarrow> string \<Rightarrow> UpdateBlogPost \<Rightarrow> (BlogContract, BlogPost) call" where
  "update_blog_post e blog_id update_blog =
     andThen (assert_is_author (signerAccountId e)) (\<lambda>_.
     andThen (get_reconstructed blog_id) (\<lambda>found.
       case found of
         None \<Rightarrow> throw ErrNotFound
       | Some blogPost \<Rightarrow>
           andThen (case get_prop update_blog ''author_id'' of
                      None \<Rightarrow> ok ()
                    | Some a \<Rightarrow> if a \<noteq> [] then assert_not_in_deny_list a else ok ()) (\<lambda>_.
           case BlogPost_update e update_blog blogPost of
             Inl err \<Rightarrow> throw err
           | Inr blogPost' \<Rightarrow>
               andThen (blog_posts_set blog_id blogPost' Reconstructor_only)
                 (\<lambda>_. ok blogPost'))))"

text \<open>
  \<open>remove_blog_post\<close> is declared with \<open>@call({})\<close>, so it is not payable. It returns what
  \<open>UnorderedMap.remove\<close> returns: the stored value.
\<close>

definition remove_blog_post :: "near_env \<Rightarrow> string \<Rightarrow> (BlogContract, BlogPost option) call" where
  "remove_blog_post e blog_id =
     andThen (call_decorator False e) (\<lambda>_.
     andThen (assert_is_author (signerAccountId e)) (\<lambda>_.
     andThen (get_reconstructed blog_id) (\<lambda>found.
       case found of
         None \<Rightarrow> throw ErrNotFound
       | Some blogPost \<Rightarrow>
           andThen (near_assert (signerAccountId e = author_id blogPost) ErrNoPermissionRemove) (\<lambda>_.
           andThen (read_state (\<lambda>s. umap_get (blog_posts s) blog_id)) (\<lambda>removed.
           andThen (modify (\<lambda>s. s\<lparr>blog_posts := umap_remove (blog_posts s) blog_id\<rparr>))
             (\<lambda>_. ok removed))))))"

subsection \<open>The views\<close>

text \<open>
  \<open>Array.prototype.slice(start, end)\<close> on integral arguments: a negative index counts
  from the end of the array, and both ends are clamped to the array.
\<close>

definition slice :: "'a list \<Rightarrow> int \<Rightarrow> int \<Rightarrow> 'a list" where
  "slice xs start fin =
     (let len = int (length xs);
          k = (if start < 0 then max (len + start) 0 else min start len);
          final = (if fin < 0 then max (len + fin) 0 else min fin len)
      in take (nat (final - k)) (drop (nat k) xs))"

text \<open>A parameter with a default: \<open>None\<close> is a property the caller left out.\<close>

definition default_to :: "'a \<Rightarrow> 'a option \<Rightarrow> 'a" where
  "default_to d v = (case v of None \<Rightarrow> d | Some x \<Rightarrow> x)"

definition get_authors :: "int option \<Rightarrow> int option \<Rightarrow> BlogContract \<Rightarrow> AccountId list" where
  "get_authors limit from s =
     (let l = default_to 20 limit; f = default_to 0 from
      in slice (authors s) f (f + l))"

definition get_blog_post :: "string \<Rightarrow> BlogContract \<Rightarrow> BlogPost option" where
  "get_blog_post blog_id s = map_option reconstruct (umap_get (blog_posts s) blog_id)"

definition get_blog_posts ::
  "int option \<Rightarrow> int option \<Rightarrow> AccountId option \<Rightarrow> BlogContract \<Rightarrow> BlogPost list" where
  "get_blog_posts limit from author s =
     (let l = default_to 20 limit; f = default_to 0 from
      in slice
           (filter (\<lambda>blogPost. if truthy author then Some (author_id blogPost) = author else True)
              (map snd (blog_posts s)))
           f (f + l))"

subsection \<open>Reference descriptions used in the statements\<close>

text \<open>
  The transfer guard of \<open>update_blog_post\<close> rejects a patch exactly when its
  \<open>author_id\<close> is a non-empty string found in the denylist.
\<close>

definition transfer_denied :: "UpdateBlogPost \<Rightarrow> BlogContract \<Rightarrow> bool" where
  "transfer_denied update_blog s =
     (case get_prop update_blog ''author_id'' of
        None \<Rightarrow> False
      | Some a \<Rightarrow> a \<noteq> [] \<and> uset_contains (denylist s) a)"

text \<open>
  The post with every field listed in the patch replaced by the patch's value, and every
  other field kept: what "the patch is applied" means.
\<close>

definition patched :: "UpdateBlogPost \<Rightarrow> BlogPost \<Rightarrow> BlogPost" where
  "patched u p =
     p\<lparr> author_id := default_to (author_id p) (get_prop u ''author_id''),
        title := default_to (title p) (get_prop u ''title''),
        ipfs_cid := default_to (ipfs_cid p) (get_prop u ''ipfs_cid''),
        thumnbnail_cid := default_to (thumnbnail_cid p) (get_prop u ''thumnbnail_cid'') \<rparr>"

subsection \<open>A small registry for the concrete checks\<close>

definition alice_post :: BlogPost where
  "alice_post =
     \<lparr> title = ''Hello'', ipfs_cid = ''cid1'', thumnbnail_cid = ''thumb1'',
       post_id = ''seed1'', author_id = ''alice.near'',
       created_at = Date 1000, last_updated_at = Date 1000 \<rparr>"

definition registry0 :: BlogContract where
  "registry0 =
     \<lparr> moderators = [''mod.near''], authors = [''alice.near''],
       denylist = [''mallory.near''], blog_posts = [(''seed1'', alice_post)] \<rparr>"

definition call_by :: "AccountId \<Rightarrow> nat \<Rightarrow> near_env" where
  "call_by a deposit =
     \<lparr> signerAccountId = a, currentAccountId = ''blog.near'', attachedDeposit = deposit,
       randomSeed = ''seed2'', blockTimestamp = 2000 \<rparr>"

definition registry_empty_denied :: BlogContract where
  "registry_empty_denied = registry0\<lparr>denylist := ['''', ''mallory.near'']\<rparr>"


text \<open>The example registry after the empty string and \<open>b.near\<close> were added as moderators.\<close>

definition registry_blank_moderator :: BlogContract where
  "registry_blank_moderator = registry0\<lparr>moderators := [''mod.near'', [], ''b.near'']\<rparr>"

text \<open>A patch that names all four mutable fields.\<close>

definition four_field_patch :: UpdateBlogPost where
  "four_field_patch =
     [(''title'', ''New''), (''ipfs_cid'', ''cid9''), (''thumnbnail_cid'', ''thumb9''),
      (''author_id'', ''alice.near'')]"




text \<open>
  The posts in stored order, restricted to one author when a non-empty \<open>author_id\<close> is
  given.
\<close>

definition posts_by :: "AccountId option \<Rightarrow> BlogContract \<Rightarrow> BlogPost list" where
  "posts_by author s =
     (case author of
        None \<Rightarrow> map snd (blog_posts s)
      | Some a \<Rightarrow>
          if a = [] then map snd (blog_posts s)
          else filter (\<lambda>blogPost. author_id blogPost = a) (map snd (blog_posts s)))"

text \<open>Five posts created one after the other by \<open>alice.near\<close>, with seeds \<open>p1\<close> to \<open>p5\<close>.\<close>

definition seeded :: "string \<Rightarrow> near_env" where
  "seeded seed = (call_by ''alice.near'' 0)\<lparr>randomSeed := seed\<rparr>"

definition nth_post :: "string \<Rightarrow> BlogPost" where
  "nth_post seed = new_BlogPost (seeded seed) seed ''cid'' ''thumb''"

definition create_next :: "BlogContract \<Rightarrow> string \<Rightarrow> BlogContract" where
  "create_next s seed = snd (create_blog_post (seeded seed) seed ''cid'' ''thumb'' s)"

definition five_posts :: BlogContract where
  "five_posts =
     foldl create_next (registry0\<lparr>blog_posts := []\<rparr>) [''p1'', ''p2'', ''p3'', ''p4'', ''p5'']"

section \<open>Unfolding the calls\<close>

lemma andThen_ok [simp]: "andThen (ok x) f = f x"
  by (rule ext) (simp add: andThen_def ok_def)

lemma andThen_throw [simp]: "andThen (throw e) f = throw e"
  by (rule ext) (simp add: andThen_def throw_def)

lemma andThen_read_state [simp]: "andThen (read_state g) f s = f (g s) s"
  by (simp add: andThen_def read_state_def)

lemma andThen_modify [simp]: "andThen (modify g) f s = f () (g s)"
  by (simp add: andThen_def modify_def)

lemma andThen_near_assert [simp]:
  "andThen (near_assert c e) f s = (if c then f () s else (Inl e, s))"
  by (simp add: near_assert_def throw_def)

lemma call_decorator_eq:
  "andThen (call_decorator payable e) f s =
     (if payable \<or> attachedDeposit e = 0 then f () s else (Inl ErrNotPayable, s))"
  by (simp add: call_decorator_def)

lemma assert_one_yocto_eq:
  "andThen (assert_one_yocto e) f s = (if attachedDeposit e = 1 then f () s else (Inl ErrOneYocto, s))"
  by (simp add: assert_one_yocto_def)

lemma andThen_assoc: "andThen (andThen m f) g = andThen m (\<lambda>x. andThen (f x) g)"
  by (rule ext) (simp add: andThen_def split: prod.splits sum.splits)

lemma assert_is_author_eq:
  "andThen (assert_is_author a) f s =
     (if uset_contains (authors s) a then f () s else (Inl ErrNotAuthor, s))"
  by (simp add: assert_is_author_def andThen_assoc)

lemma assert_not_in_deny_list_eq:
  "andThen (assert_not_in_deny_list a) f s =
     (if uset_contains (denylist s) a then (Inl ErrDenylisted, s) else f () s)"
  by (simp add: assert_not_in_deny_list_def andThen_assoc)

lemma assert_owner_or_moderator_eq:
  "andThen (assert_owner_or_moderator e) f s =
     (if signerAccountId e = currentAccountId e \<or> uset_contains (moderators s) (signerAccountId e)
      then f () s else (Inl ErrNoPermission, s))"
  by (simp add: assert_owner_or_moderator_def andThen_assoc)

lemma forEach_deny:
  "forEach ms assert_not_in_deny_list s =
     (if \<exists>m \<in> set ms. uset_contains (denylist s) m then (Inl ErrDenylisted, s) else (Inr (), s))"
proof (induction ms)
  case Nil
  show ?case by (simp add: ok_def)
next
  case (Cons m ms)
  show ?case by (simp add: assert_not_in_deny_list_eq Cons)
qed

lemma moderators_remove_eq:
  "moderators_remove m s =
     (case uset_remove (moderators s) m of
        Inl err \<Rightarrow> (Inl err, s)
      | Inr m' \<Rightarrow> (Inr (), s\<lparr>moderators := m'\<rparr>))"
  by (simp add: moderators_remove_def andThen_def read_state_def throw_def modify_def
      split: sum.splits)

lemma uset_remove_error: "uset_remove m x = Inl err \<Longrightarrow> err = ErrInconsistentState"
  by (simp add: uset_remove_def split: if_splits)

lemma forEach_remove_error:
  "fst (forEach ms moderators_remove s) = Inl err \<Longrightarrow> err = ErrInconsistentState"
proof (induction ms arbitrary: s)
  case Nil
  then show ?case by (simp add: ok_def)
next
  case (Cons m ms)
  show ?case
  proof (cases "uset_remove (moderators s) m")
    case (Inl err')
    then have "moderators_remove m s = (Inl err', s)"
      by (simp add: moderators_remove_eq)
    with Cons.prems have "err = err'"
      by (simp add: andThen_def)
    with Inl show ?thesis
      by (simp add: uset_remove_error)
  next
    case (Inr m')
    then have "moderators_remove m s = (Inr (), s\<lparr>moderators := m'\<rparr>)"
      by (simp add: moderators_remove_eq)
    with Cons.prems
    have "fst (forEach ms moderators_remove (s\<lparr>moderators := m'\<rparr>)) = Inl err"
      by (simp add: andThen_def)
    then show ?thesis by (rule Cons.IH)
  qed
qed

lemma andThen_run: "andThen m f s = (case m s of (Inl e, s') \<Rightarrow> (Inl e, s') | (Inr x, s') \<Rightarrow> f x s')"
  by (simp add: andThen_def)

lemma add_moderators_eq:
  "add_moderators e ms s =
     (if attachedDeposit e \<noteq> 1 then (Inl ErrOneYocto, s)
      else if uset_contains (denylist s) (signerAccountId e) then (Inl ErrDenylisted, s)
      else if \<not> (signerAccountId e = currentAccountId e \<or> uset_contains (moderators s) (signerAccountId e))
        then (Inl ErrNoPermission, s)
      else if \<exists>m \<in> set ms. uset_contains (denylist s) m then (Inl ErrDenylisted, s)
      else (Inr (), s\<lparr>moderators := uset_extend (moderators s) ms\<rparr>))"
  unfolding add_moderators_def
  by (simp add: assert_one_yocto_eq assert_not_in_deny_list_eq assert_owner_or_moderator_eq
      andThen_run [of "forEach _ _"] forEach_deny modify_def)

lemma remove_moderators_eq:
  "remove_moderators e ms s =
     (if attachedDeposit e \<noteq> 1 then (Inl ErrOneYocto, s)
      else if \<not> (signerAccountId e = currentAccountId e \<or> uset_contains (moderators s) (signerAccountId e))
        then (Inl ErrNoPermission, s)
      else forEach ms moderators_remove s)"
  unfolding remove_moderators_def
  by (simp add: assert_one_yocto_eq assert_owner_or_moderator_eq)

lemma register_eq:
  "register e s =
     (if attachedDeposit e \<noteq> 1 then (Inl ErrOneYocto, s)
      else if uset_contains (denylist s) (signerAccountId e) then (Inl ErrDenylisted, s)
      else (Inr (), s\<lparr>authors := uset_set (authors s) (signerAccountId e)\<rparr>))"
  unfolding register_def
  by (simp add: assert_one_yocto_eq assert_not_in_deny_list_eq modify_def)

lemma blog_posts_set_eq:
  "andThen (blog_posts_set key v opts) f s =
     (case serializeValueWithOptions v opts of
        Inl err \<Rightarrow> (Inl err, s)
      | Inr stored \<Rightarrow> f () (s\<lparr>blog_posts := umap_set (blog_posts s) key stored\<rparr>))"
  by (simp add: blog_posts_set_def throw_def split: sum.splits)

lemma serialize_new_BlogPost:
  "serialize (new_BlogPost e t c th) =
     (if blockTimestamp e \<le> 8640000000000000 then Inr (new_BlogPost e t c th)
      else Inl ErrInvalidTime)"
  by (simp add: serialize_def new_BlogPost_def new_Date_def)

lemma create_blog_post_eq:
  "create_blog_post e t c th s =
     (if \<not> uset_contains (authors s) (signerAccountId e) then (Inl ErrNotAuthor, s)
      else if \<not> blockTimestamp e \<le> 8640000000000000 then (Inl ErrInvalidTime, s)
      else (Inr (new_BlogPost e t c th),
            s\<lparr>blog_posts := umap_set (blog_posts s) (post_id (new_BlogPost e t c th)) (new_BlogPost e t c th)\<rparr>))"
  unfolding create_blog_post_def
  by (simp add: assert_is_author_eq Let_def ok_def blog_posts_set_eq serializeValueWithOptions_def
      serialize_new_BlogPost)

lemma reconstruct_id [simp]: "reconstruct blog = blog"
  by (simp add: reconstruct_def)

lemma update_blog_post_eq:
  "update_blog_post e blog_id u s =
     (if \<not> uset_contains (authors s) (signerAccountId e) then (Inl ErrNotAuthor, s)
      else (case umap_get (blog_posts s) blog_id of
        None \<Rightarrow> (Inl ErrNotFound, s)
      | Some p \<Rightarrow>
          (if transfer_denied u s then (Inl ErrDenylisted, s)
           else (case BlogPost_update e u p of
             Inl err \<Rightarrow> (Inl err, s)
           | Inr p' \<Rightarrow> (Inl ErrSerializerNotAFunction, s)))))"
  unfolding update_blog_post_def get_reconstructed_def transfer_denied_def
  by (simp add: assert_is_author_eq assert_not_in_deny_list_eq throw_def ok_def blog_posts_set_eq
      serializeValueWithOptions_def split: option.splits sum.splits)

lemma remove_blog_post_eq:
  "remove_blog_post e blog_id s =
     (if attachedDeposit e \<noteq> 0 then (Inl ErrNotPayable, s)
      else if \<not> uset_contains (authors s) (signerAccountId e) then (Inl ErrNotAuthor, s)
      else (case umap_get (blog_posts s) blog_id of
        None \<Rightarrow> (Inl ErrNotFound, s)
      | Some p \<Rightarrow>
          (if signerAccountId e \<noteq> author_id p then (Inl ErrNoPermissionRemove, s)
           else (Inr (Some p), s\<lparr>blog_posts := umap_remove (blog_posts s) blog_id\<rparr>))))"
  unfolding remove_blog_post_def get_reconstructed_def
  by (simp add: call_decorator_eq assert_is_author_eq throw_def ok_def split: option.splits)

lemma foldl_assign_fixed:
  "post_id (foldl (assign u) p ks) = post_id p"
  "created_at (foldl (assign u) p ks) = created_at p"
  "last_updated_at (foldl (assign u) p ks) = last_updated_at p"
  by (induction ks arbitrary: p; simp add: assign_def split: option.splits)+

lemma foldl_assign_author_id:
  "author_id (foldl (assign u) p ks) =
     (if ''author_id'' \<in> set ks then default_to (author_id p) (get_prop u ''author_id'') else author_id p)"
  by (induction ks arbitrary: p) (auto simp: assign_def default_to_def split: option.splits)

lemma foldl_assign_title:
  "title (foldl (assign u) p ks) =
     (if ''title'' \<in> set ks then default_to (title p) (get_prop u ''title'') else title p)"
  by (induction ks arbitrary: p) (auto simp: assign_def default_to_def split: option.splits)

lemma foldl_assign_ipfs_cid:
  "ipfs_cid (foldl (assign u) p ks) =
     (if ''ipfs_cid'' \<in> set ks then default_to (ipfs_cid p) (get_prop u ''ipfs_cid'') else ipfs_cid p)"
  by (induction ks arbitrary: p) (auto simp: assign_def default_to_def split: option.splits)

lemma foldl_assign_thumnbnail_cid:
  "thumnbnail_cid (foldl (assign u) p ks) =
     (if ''thumnbnail_cid'' \<in> set ks
      then default_to (thumnbnail_cid p) (get_prop u ''thumnbnail_cid'') else thumnbnail_cid p)"
  by (induction ks arbitrary: p) (auto simp: assign_def default_to_def split: option.splits)

lemma get_prop_absent: "k \<notin> set (Object_keys u) \<Longrightarrow> get_prop u k = None"
  by (simp add: get_prop_def Object_keys_def map_of_eq_None_iff)

lemma foldl_assign_patched: "foldl (assign u) p (Object_keys u) = patched u p"
  by (rule BlogPost.equality)
     (auto simp: patched_def foldl_assign_fixed foldl_assign_author_id foldl_assign_title
        foldl_assign_ipfs_cid foldl_assign_thumnbnail_cid get_prop_absent default_to_def)

lemma BlogPost_update_eq:
  "BlogPost_update e u p =
     (if signerAccountId e \<noteq> author_id p then Inl ErrNoPermission
      else if keys_accepted (Object_keys u) then Inr (patched u p) else Inr p)"
  by (simp add: BlogPost_update_def Let_def foldl_assign_patched)


lemmas example_defs = alice_post_def registry0_def call_by_def uset_contains_def umap_get_def

lemma keys_accepted_author_id:
  "get_prop u ''author_id'' = Some a \<Longrightarrow>
   list_all (\<lambda>key. List.member updatable_keys key) (Object_keys u) \<Longrightarrow> keys_accepted (Object_keys u)"
  by (auto simp: keys_accepted_def get_prop_def Object_keys_def)

lemma update_blog_post_rejected: "isl (fst (update_blog_post e b u s))"
  by (simp add: update_blog_post_eq split: option.splits sum.splits)


lemma signer_call_by: "signerAccountId (call_by a d) = a"
  by (simp add: call_by_def)

lemma accepted_title_patch: "keys_accepted (Object_keys [(''title'', t)])"
  by (simp add: keys_accepted_def Object_keys_def updatable_keys_def)

lemma patched_title: "patched [(''title'', t)] p = p\<lparr>title := t\<rparr>"
  by (simp add: patched_def get_prop_def default_to_def)

lemma patched_fixed:
  "post_id (patched u p) = post_id p"
  "created_at (patched u p) = created_at p"
  "last_updated_at (patched u p) = last_updated_at p"
  by (simp_all add: patched_def)

lemma patched_unlisted:
  "''author_id'' \<notin> set (Object_keys u) \<Longrightarrow> author_id (patched u p) = author_id p"
  "''title'' \<notin> set (Object_keys u) \<Longrightarrow> title (patched u p) = title p"
  "''ipfs_cid'' \<notin> set (Object_keys u) \<Longrightarrow> ipfs_cid (patched u p) = ipfs_cid p"
  "''thumnbnail_cid'' \<notin> set (Object_keys u) \<Longrightarrow> thumnbnail_cid (patched u p) = thumnbnail_cid p"
  by (simp_all add: patched_def get_prop_absent default_to_def)


lemma five_posts_eq:
  "blog_posts five_posts =
     [(''p1'', nth_post ''p1''), (''p2'', nth_post ''p2''), (''p3'', nth_post ''p3''),
      (''p4'', nth_post ''p4''), (''p5'', nth_post ''p5'')]"
  by (simp add: five_posts_def create_next_def create_blog_post_eq nth_post_def seeded_def
      new_BlogPost_def example_defs)

lemma nth_post_author: "author_id (nth_post seed) = ''alice.near''"
  by (simp add: nth_post_def new_BlogPost_def seeded_def call_by_def)

lemma get_blog_posts_eq:
  "get_blog_posts limit from author s =
     slice (posts_by author s) (default_to 0 from) (default_to 0 from + default_to 20 limit)"
proof -
  have "filter (\<lambda>blogPost. if truthy author then Some (author_id blogPost) = author else True)
          (map snd (blog_posts s)) = posts_by author s"
    by (cases author) (auto simp: posts_by_def intro: filter_cong)
  then show ?thesis
    by (simp add: get_blog_posts_def Let_def)
qed

lemma slice_nonneg: "0 \<le> f \<Longrightarrow> 0 \<le> l \<Longrightarrow> slice xs f (f + l) = take (nat l) (drop (nat f) xs)"
  by (auto simp: slice_def Let_def min_def)

lemma slice_beyond: "int (length xs) \<le> f \<Longrightarrow> slice xs f g = []"
  by (auto simp: slice_def Let_def min_def max_def)

lemma keys_accepted_iff:
  "keys_accepted ks \<longleftrightarrow>
     ks \<noteq> [] \<and> set ks \<subseteq> {''author_id'', ''title'', ''ipfs_cid'', ''thumnbnail_cid''}"
  by (auto simp: keys_accepted_def updatable_keys_def list_all_iff)

lemma swap_remove_subset: "set (swap_remove xs i) \<subseteq> set xs"
proof (cases "i < length xs")
  case True
  then have ne: "xs \<noteq> []"
    by auto
  have "set (butlast (xs[i := last xs])) \<subseteq> set (xs[i := last xs])"
    by (auto dest: in_set_butlastD)
  also have "\<dots> \<subseteq> insert (last xs) (set xs)"
    by (rule set_update_subset_insert)
  also have "\<dots> = set xs"
    using ne by (simp add: insert_absorb)
  finally show ?thesis
    using True by (simp add: swap_remove_def)
next
  case False
  then show ?thesis
    by (simp add: swap_remove_def)
qed

lemma uset_remove_no_blank:
  assumes "[] \<notin> set m"
  shows "\<exists>m'. uset_remove m x = Inr m' \<and> [] \<notin> set m'"
proof -
  have "[] \<notin> set (swap_remove m (index_of m x))"
    using assms swap_remove_subset [of m "index_of m x"] by blast
  moreover have "last m \<noteq> []" if "uset_contains m x"
  proof -
    from that have "m \<noteq> []"
      by (auto simp: uset_contains_def)
    then have "last m \<in> set m"
      by simp
    with assms show ?thesis
      by auto
  qed
  ultimately show ?thesis
    using assms by (auto simp: uset_remove_def)
qed

lemma forEach_remove_no_blank:
  "[] \<notin> set (moderators s) \<Longrightarrow> \<not> isl (fst (forEach ms moderators_remove s))"
proof (induction ms arbitrary: s)
  case Nil
  show ?case by (simp add: ok_def)
next
  case (Cons m ms)
  from uset_remove_no_blank [OF Cons.prems, of m] obtain m' where
    r: "uset_remove (moderators s) m = Inr m'" and nb: "[] \<notin> set m'"
    by blast
  from r have "moderators_remove m s = (Inr (), s\<lparr>moderators := m'\<rparr>)"
    by (simp add: moderators_remove_eq)
  then have "forEach (m # ms) moderators_remove s = forEach ms moderators_remove (s\<lparr>moderators := m'\<rparr>)"
    by (simp add: andThen_def)
  moreover have "\<not> isl (fst (forEach ms moderators_remove (s\<lparr>moderators := m'\<rparr>)))"
    by (rule Cons.IH) (simp add: nb)
  ultimately show ?case
    by simp
qed

section \<open>The claims\<close>

text \<open>
  Claim C1. \<open>BlogPost.update\<close> treats the patch all-or-nothing: for the post's author it
  returns the post with every listed field replaced when the patch is non-empty and all
  its keys are among \<open>author_id\<close>, \<open>title\<close>, \<open>ipfs_cid\<close>, \<open>thumnbnail_cid\<close>, and the
  post as it was otherwise, without an error. \<open>update_blog_post\<close> then hands the post
  to \<open>blog_posts.set\<close> with an options object that has no serializer, and that call
  throws: for the registered author of an existing post and a patch that passes the
  transfer guard, the contract call ends in the \<open>TypeError\<close> with the registry as it
  was. Neither the applied patch nor the silently ignored one is ever returned.
\<close>

theorem update_all_or_nothing_not_stored:
  assumes "uset_contains (authors s) (signerAccountId e)"
    and "umap_get (blog_posts s) blog_id = Some p"
    and "signerAccountId e = author_id p"
    and "\<not> transfer_denied u s"
  shows "BlogPost_update e u p = Inr (if keys_accepted (Object_keys u) then patched u p else p) \<and>
         (keys_accepted (Object_keys u) \<longleftrightarrow>
            Object_keys u \<noteq> [] \<and>
            set (Object_keys u) \<subseteq> {''author_id'', ''title'', ''ipfs_cid'', ''thumnbnail_cid''}) \<and>
         update_blog_post e blog_id u s = (Inl ErrSerializerNotAFunction, s)"
proof -
  have up: "BlogPost_update e u p = Inr (if keys_accepted (Object_keys u) then patched u p else p)"
    using assms(3) by (simp add: BlogPost_update_eq)
  then have "update_blog_post e blog_id u s = (Inl ErrSerializerNotAFunction, s)"
    using assms(1,2,4) by (simp add: update_blog_post_eq)
  with up show ?thesis
    by (simp only: keys_accepted_iff simp_thms)
qed

text \<open>
  On the example registry: a patch with all four keys, a patch with an unknown key and
  the empty patch. \<open>BlogPost.update\<close> applies the first and ignores the second; all
  three calls of \<open>update_blog_post\<close> throw at the store.
\<close>

theorem update_all_or_nothing_not_stored_witness:
  "BlogPost_update (call_by ''alice.near'' 0) four_field_patch alice_post =
     Inr (alice_post\<lparr>title := ''New'', ipfs_cid := ''cid9'', thumnbnail_cid := ''thumb9''\<rparr>) \<and>
   update_blog_post (call_by ''alice.near'' 0) ''seed1'' four_field_patch registry0 =
     (Inl ErrSerializerNotAFunction, registry0) \<and>
   BlogPost_update (call_by ''alice.near'' 0) [(''unknown_field'', ''x'')] alice_post = Inr alice_post \<and>
   update_blog_post (call_by ''alice.near'' 0) ''seed1'' [(''unknown_field'', ''x'')] registry0 =
     (Inl ErrSerializerNotAFunction, registry0) \<and>
   update_blog_post (call_by ''alice.near'' 0) ''seed1'' [] registry0 =
     (Inl ErrSerializerNotAFunction, registry0)"
proof -
  have h1: "uset_contains (authors registry0) (signerAccountId (call_by ''alice.near'' 0))"
    by (simp add: example_defs)
  have h2: "umap_get (blog_posts registry0) ''seed1'' = Some alice_post"
    by (simp add: example_defs)
  have h3: "signerAccountId (call_by ''alice.near'' 0) = author_id alice_post"
    by (simp add: example_defs)
  have d1: "\<not> transfer_denied four_field_patch registry0"
    and d2: "\<not> transfer_denied [(''unknown_field'', ''x'')] registry0"
    and d3: "\<not> transfer_denied [] registry0"
    by (simp_all add: transfer_denied_def get_prop_def four_field_patch_def example_defs)
  have k1: "Object_keys four_field_patch \<noteq> [] \<and>
      set (Object_keys four_field_patch) \<subseteq> {''author_id'', ''title'', ''ipfs_cid'', ''thumnbnail_cid''}"
    by (simp add: Object_keys_def four_field_patch_def)
  have k2: "\<not> (Object_keys [(''unknown_field'', ''x'')] \<noteq> [] \<and>
      set (Object_keys [(''unknown_field'', ''x'')]) \<subseteq> {''author_id'', ''title'', ''ipfs_cid'', ''thumnbnail_cid''})"
    by (simp add: Object_keys_def)
  have p1: "patched four_field_patch alice_post =
      alice_post\<lparr>title := ''New'', ipfs_cid := ''cid9'', thumnbnail_cid := ''thumb9''\<rparr>"
    by (simp add: patched_def get_prop_def default_to_def four_field_patch_def alice_post_def)
  note t1 = update_all_or_nothing_not_stored [OF h1 h2 h3 d1]
  note t2 = update_all_or_nothing_not_stored [OF h1 h2 h3 d2]
  note t3 = update_all_or_nothing_not_stored [OF h1 h2 h3 d3]
  from t1 k1 have "keys_accepted (Object_keys four_field_patch)"
    by blast
  with t1 have a1: "BlogPost_update (call_by ''alice.near'' 0) four_field_patch alice_post =
      Inr (alice_post\<lparr>title := ''New'', ipfs_cid := ''cid9'', thumnbnail_cid := ''thumb9''\<rparr>)"
    by (simp add: p1)
  from t2 k2 have "\<not> keys_accepted (Object_keys [(''unknown_field'', ''x'')])"
    by blast
  with t2 have a2: "BlogPost_update (call_by ''alice.near'' 0) [(''unknown_field'', ''x'')] alice_post =
      Inr alice_post"
    by simp
  from a1 a2 t1 t2 t3 show ?thesis
    by blast
qed

text \<open>
  Claim C2, as amended. When \<open>add_moderators\<close>, \<open>register\<close>, \<open>create_blog_post\<close>,
  \<open>update_blog_post\<close> or \<open>remove_blog_post\<close> is rejected, by an assertion of the
  method, by the non-payable check or by an error of the serializer, nothing has been
  written: the registry at the throw is the registry before the call. The same holds
  for \<open>remove_moderators\<close> whenever the error is not the internal assertion of
  \<open>UnorderedSet.remove\<close>, and for every rejection of it when the empty string is not a
  stored moderator.
\<close>

theorem rejected_call_changes_nothing:
  "(isl (fst (add_moderators e ms s)) \<longrightarrow> snd (add_moderators e ms s) = s) \<and>
   (fst (remove_moderators e ms s) = Inl err \<and> err \<noteq> ErrInconsistentState \<longrightarrow>
      snd (remove_moderators e ms s) = s) \<and>
   ([] \<notin> set (moderators s) \<and> isl (fst (remove_moderators e ms s)) \<longrightarrow>
      snd (remove_moderators e ms s) = s) \<and>
   (isl (fst (register e s)) \<longrightarrow> snd (register e s) = s) \<and>
   (isl (fst (create_blog_post e t c th s)) \<longrightarrow> snd (create_blog_post e t c th s) = s) \<and>
   (isl (fst (update_blog_post e b u s)) \<longrightarrow> snd (update_blog_post e b u s) = s) \<and>
   (isl (fst (remove_blog_post e b s)) \<longrightarrow> snd (remove_blog_post e b s) = s)"
proof (intro conjI)
  show "isl (fst (add_moderators e ms s)) \<longrightarrow> snd (add_moderators e ms s) = s"
    by (simp add: add_moderators_eq)
  show "isl (fst (register e s)) \<longrightarrow> snd (register e s) = s"
    by (simp add: register_eq)
  show "isl (fst (create_blog_post e t c th s)) \<longrightarrow> snd (create_blog_post e t c th s) = s"
    by (simp add: create_blog_post_eq)
  show "isl (fst (update_blog_post e b u s)) \<longrightarrow> snd (update_blog_post e b u s) = s"
    by (simp add: update_blog_post_eq split: option.splits sum.splits)
  show "isl (fst (remove_blog_post e b s)) \<longrightarrow> snd (remove_blog_post e b s) = s"
    by (simp add: remove_blog_post_eq split: option.splits)
next
  show "fst (remove_moderators e ms s) = Inl err \<and> err \<noteq> ErrInconsistentState \<longrightarrow>
      snd (remove_moderators e ms s) = s"
  proof
    assume a: "fst (remove_moderators e ms s) = Inl err \<and> err \<noteq> ErrInconsistentState"
    show "snd (remove_moderators e ms s) = s"
    proof (cases "attachedDeposit e = 1 \<and>
        (signerAccountId e = currentAccountId e \<or> uset_contains (moderators s) (signerAccountId e))")
      case True
      then have "remove_moderators e ms s = forEach ms moderators_remove s"
        by (simp add: remove_moderators_eq)
      with a forEach_remove_error [of ms s err] show ?thesis
        by simp
    next
      case False
      then show ?thesis
        by (auto simp: remove_moderators_eq)
    qed
  qed
next
  show "[] \<notin> set (moderators s) \<and> isl (fst (remove_moderators e ms s)) \<longrightarrow>
      snd (remove_moderators e ms s) = s"
  proof
    assume a: "[] \<notin> set (moderators s) \<and> isl (fst (remove_moderators e ms s))"
    show "snd (remove_moderators e ms s) = s"
    proof (cases "attachedDeposit e = 1 \<and>
        (signerAccountId e = currentAccountId e \<or> uset_contains (moderators s) (signerAccountId e))")
      case True
      then have "remove_moderators e ms s = forEach ms moderators_remove s"
        by (simp add: remove_moderators_eq)
      with a forEach_remove_no_blank [of s ms] show ?thesis
        by simp
    next
      case False
      then show ?thesis
        by (auto simp: remove_moderators_eq)
    qed
  qed
qed

text \<open>Six rejected calls on the example registry, each by a different error.\<close>

theorem rejected_call_changes_nothing_witness:
  "add_moderators (call_by ''mallory.near'' 0) [''bob.near''] registry0 = (Inl ErrOneYocto, registry0) \<and>
   remove_moderators (call_by ''alice.near'' 1) [''mod.near''] registry0 =
     (Inl ErrNoPermission, registry0) \<and>
   register (call_by ''mallory.near'' 1) registry0 = (Inl ErrDenylisted, registry0) \<and>
   create_blog_post (call_by ''bob.near'' 0) ''T'' ''C'' ''H'' registry0 = (Inl ErrNotAuthor, registry0) \<and>
   update_blog_post (call_by ''alice.near'' 0) ''seed1'' [(''title'', ''X'')] registry0 =
     (Inl ErrSerializerNotAFunction, registry0) \<and>
   remove_blog_post (call_by ''alice.near'' 1) ''seed1'' registry0 = (Inl ErrNotPayable, registry0)"
proof -
  have a: "fst (add_moderators (call_by ''mallory.near'' 0) [''bob.near''] registry0) = Inl ErrOneYocto"
    by (simp add: add_moderators_eq call_by_def)
  have rm: "fst (remove_moderators (call_by ''alice.near'' 1) [''mod.near''] registry0) = Inl ErrNoPermission"
    by (simp add: remove_moderators_eq example_defs)
  have nb: "[] \<notin> set (moderators registry0)"
    by (simp add: registry0_def)
  have r: "fst (register (call_by ''mallory.near'' 1) registry0) = Inl ErrDenylisted"
    by (simp add: register_eq example_defs)
  have c: "fst (create_blog_post (call_by ''bob.near'' 0) ''T'' ''C'' ''H'' registry0) = Inl ErrNotAuthor"
    by (simp add: create_blog_post_eq example_defs)
  have u: "fst (update_blog_post (call_by ''alice.near'' 0) ''seed1'' [(''title'', ''X'')] registry0) =
      Inl ErrSerializerNotAFunction"
    by (simp add: update_blog_post_eq BlogPost_update_eq transfer_denied_def get_prop_def example_defs)
  have rb: "fst (remove_blog_post (call_by ''alice.near'' 1) ''seed1'' registry0) = Inl ErrNotPayable"
    by (simp add: remove_blog_post_eq call_by_def)
  note t1 = rejected_call_changes_nothing
    [where e = "call_by ''mallory.near'' 0" and ms = "[''bob.near'']" and s = registry0]
  note t2 = rejected_call_changes_nothing
    [where e = "call_by ''alice.near'' 1" and ms = "[''mod.near'']" and s = registry0
       and err = ErrNoPermission and b = "''seed1''"]
  note t3 = rejected_call_changes_nothing
    [where e = "call_by ''mallory.near'' 1" and s = registry0]
  note t4 = rejected_call_changes_nothing
    [where e = "call_by ''bob.near'' 0" and s = registry0 and t = "''T''" and c = "''C''"
       and th = "''H''"]
  note t5 = rejected_call_changes_nothing
    [where e = "call_by ''alice.near'' 0" and s = registry0 and b = "''seed1''"
       and u = "[(''title'', ''X'')]"]
  from t1 a have 1: "snd (add_moderators (call_by ''mallory.near'' 0) [''bob.near''] registry0) = registry0"
    by simp
  from t2 rm have 2: "snd (remove_moderators (call_by ''alice.near'' 1) [''mod.near''] registry0) = registry0"
    by simp
  from t2 rm nb have "snd (remove_moderators (call_by ''alice.near'' 1) [''mod.near''] registry0) = registry0"
    by simp
  from t3 r have 3: "snd (register (call_by ''mallory.near'' 1) registry0) = registry0"
    by simp
  from t4 c have 4: "snd (create_blog_post (call_by ''bob.near'' 0) ''T'' ''C'' ''H'' registry0) = registry0"
    by simp
  from t5 u have 5: "snd (update_blog_post (call_by ''alice.near'' 0) ''seed1'' [(''title'', ''X'')] registry0)
      = registry0"
    by simp
  from t2 rb have 6: "snd (remove_blog_post (call_by ''alice.near'' 1) ''seed1'' registry0) = registry0"
    by simp
  from a 1 rm 2 r 3 c 4 u 5 rb 6 show ?thesis
    by (metis prod.collapse)
qed

text \<open>
  The claim as it was written covers every failed assertion. The contract account adds
  the empty string and \<open>b.near\<close> as moderators; removing \<open>b.near\<close> and \<open>mod.near\<close> then
  removes \<open>b.near\<close>, finds the empty string in the last slot and throws from the
  assertion inside \<open>UnorderedSet.remove\<close>, with \<open>b.near\<close> already gone.
\<close>

theorem rejected_call_changes_nothing_counterexample:
  "add_moderators (call_by ''blog.near'' 1) [[], ''b.near''] registry0 =
     (Inr (), registry_blank_moderator) \<and>
   remove_moderators (call_by ''blog.near'' 1) [''b.near'', ''mod.near''] registry_blank_moderator =
     (Inl ErrInconsistentState, registry_blank_moderator\<lparr>moderators := [''mod.near'', []]\<rparr>) \<and>
   registry_blank_moderator\<lparr>moderators := [''mod.near'', []]\<rparr> \<noteq> registry_blank_moderator"
proof (intro conjI)
  show "add_moderators (call_by ''blog.near'' 1) [[], ''b.near''] registry0 =
     (Inr (), registry_blank_moderator)"
    by (simp add: add_moderators_eq uset_extend_def uset_set_def registry_blank_moderator_def
        example_defs)
  have 1: "moderators_remove ''b.near'' registry_blank_moderator =
      (Inr (), registry_blank_moderator\<lparr>moderators := [''mod.near'', []]\<rparr>)"
    by (simp add: moderators_remove_eq uset_remove_def swap_remove_def registry_blank_moderator_def
        registry0_def uset_contains_def)
  have 2: "moderators_remove ''mod.near'' (registry_blank_moderator\<lparr>moderators := [''mod.near'', []]\<rparr>) =
      (Inl ErrInconsistentState, registry_blank_moderator\<lparr>moderators := [''mod.near'', []]\<rparr>)"
    by (simp add: moderators_remove_eq uset_remove_def uset_contains_def)
  have "forEach [''b.near'', ''mod.near''] moderators_remove registry_blank_moderator =
      (Inl ErrInconsistentState, registry_blank_moderator\<lparr>moderators := [''mod.near'', []]\<rparr>)"
    by (simp add: andThen_def 1 2)
  then show "remove_moderators (call_by ''blog.near'' 1) [''b.near'', ''mod.near''] registry_blank_moderator =
     (Inl ErrInconsistentState, registry_blank_moderator\<lparr>moderators := [''mod.near'', []]\<rparr>)"
    by (simp add: remove_moderators_eq call_by_def)
  have "moderators (registry_blank_moderator\<lparr>moderators := [''mod.near'', []]\<rparr>) \<noteq>
      moderators registry_blank_moderator"
    by (simp add: registry_blank_moderator_def)
  then show "registry_blank_moderator\<lparr>moderators := [''mod.near'', []]\<rparr> \<noteq> registry_blank_moderator"
    by metis
qed






text \<open>
  Claim C5, as amended. For an account \<open>d\<close> in the denylist, \<open>register\<close> signed by \<open>d\<close>,
  \<open>add_moderators\<close> with \<open>d\<close> among the targets and, when \<open>d\<close> is not the empty string,
  \<open>update_blog_post\<close> with \<open>d\<close> as the patch's \<open>author_id\<close> are rejected with the
  registry unchanged. The error is the denylist error once the assertions that run
  earlier pass, and the error of the first failing earlier assertion otherwise: the
  deposit for \<open>register\<close>; the deposit and the signer's right to add moderators for
  \<open>add_moderators\<close>; the signer's registration and the existence of the post for
  \<open>update_blog_post\<close>.
\<close>

theorem denylisted_account_rejected:
  assumes "uset_contains (denylist s) d"
  shows
    "(signerAccountId e1 = d \<longrightarrow>
        register e1 s = (Inl (if attachedDeposit e1 = 1 then ErrDenylisted else ErrOneYocto), s)) \<and>
     (d \<in> set ms \<longrightarrow>
        add_moderators e2 ms s =
          (Inl (if attachedDeposit e2 \<noteq> 1 then ErrOneYocto
                else if uset_contains (denylist s) (signerAccountId e2) then ErrDenylisted
                else if \<not> (signerAccountId e2 = currentAccountId e2 \<or>
                            uset_contains (moderators s) (signerAccountId e2))
                  then ErrNoPermission
                else ErrDenylisted), s)) \<and>
     (get_prop u ''author_id'' = Some d \<and> d \<noteq> [] \<longrightarrow>
        update_blog_post e3 b u s =
          (Inl (if \<not> uset_contains (authors s) (signerAccountId e3) then ErrNotAuthor
                else if umap_get (blog_posts s) b = None then ErrNotFound
                else ErrDenylisted), s))"
proof (intro conjI impI)
  assume "signerAccountId e1 = d"
  with assms show "register e1 s =
      (Inl (if attachedDeposit e1 = 1 then ErrDenylisted else ErrOneYocto), s)"
    by (simp add: register_eq)
next
  assume "d \<in> set ms"
  with assms have ex: "\<exists>m \<in> set ms. uset_contains (denylist s) m"
    by blast
  then show "add_moderators e2 ms s =
          (Inl (if attachedDeposit e2 \<noteq> 1 then ErrOneYocto
                else if uset_contains (denylist s) (signerAccountId e2) then ErrDenylisted
                else if \<not> (signerAccountId e2 = currentAccountId e2 \<or>
                            uset_contains (moderators s) (signerAccountId e2))
                  then ErrNoPermission
                else ErrDenylisted), s)"
    by (simp add: add_moderators_eq)
next
  assume "get_prop u ''author_id'' = Some d \<and> d \<noteq> []"
  with assms have td: "transfer_denied u s"
    by (simp add: transfer_denied_def)
  then show "update_blog_post e3 b u s =
          (Inl (if \<not> uset_contains (authors s) (signerAccountId e3) then ErrNotAuthor
                else if umap_get (blog_posts s) b = None then ErrNotFound
                else ErrDenylisted), s)"
    by (simp add: update_blog_post_eq split: option.splits)
qed

text \<open>\<open>mallory.near\<close> is denylisted in the example registry; the three calls.\<close>

theorem denylisted_account_rejected_witness:
  "register (call_by ''mallory.near'' 1) registry0 = (Inl ErrDenylisted, registry0) \<and>
   add_moderators (call_by ''mod.near'' 1) [''bob.near'', ''mallory.near''] registry0 =
     (Inl ErrDenylisted, registry0) \<and>
   update_blog_post (call_by ''alice.near'' 0) ''seed1'' [(''author_id'', ''mallory.near'')] registry0 =
     (Inl ErrDenylisted, registry0)"
proof -
  have d: "uset_contains (denylist registry0) ''mallory.near''"
    by (simp add: example_defs)
  have m: "''mallory.near'' \<in> set [''bob.near'', ''mallory.near'']"
    by simp
  have g: "get_prop [(''author_id'', ''mallory.near'')] ''author_id'' = Some ''mallory.near'' \<and>
      ''mallory.near'' \<noteq> []"
    by (simp add: get_prop_def)
  have c1: "(if attachedDeposit (call_by ''mallory.near'' 1) = 1 then ErrDenylisted else ErrOneYocto)
      = ErrDenylisted"
    by (simp add: call_by_def)
  have c2: "(if attachedDeposit (call_by ''mod.near'' 1) \<noteq> 1 then ErrOneYocto
                else if uset_contains (denylist registry0) ''mod.near'' then ErrDenylisted
                else if \<not> (''mod.near'' = currentAccountId (call_by ''mod.near'' 1) \<or>
                            uset_contains (moderators registry0) ''mod.near'')
                  then ErrNoPermission
                else ErrDenylisted) = ErrDenylisted"
    by (simp add: example_defs)
  have c3: "(if \<not> uset_contains (authors registry0) ''alice.near'' then ErrNotAuthor
                else if umap_get (blog_posts registry0) ''seed1'' = None then ErrNotFound
                else ErrDenylisted) = ErrDenylisted"
    by (simp add: example_defs)
  note t = denylisted_account_rejected
    [OF d, where ?e1.0 = "call_by ''mallory.near'' 1" and ?e2.0 = "call_by ''mod.near'' 1"
       and ms = "[''bob.near'', ''mallory.near'']" and ?e3.0 = "call_by ''alice.near'' 0"
       and u = "[(''author_id'', ''mallory.near'')]" and b = "''seed1''",
     unfolded signer_call_by c1 c2 c3]
  from t m g show ?thesis
    by blast
qed

text \<open>
  The claim as it was written names the denylist error for every denylisted account.
  With the empty string in the denylist, a transfer to the empty string is not stopped
  by the denylist assertion: the call fails with a different error.
\<close>

theorem denylisted_account_rejected_counterexample:
  "uset_contains (denylist registry_empty_denied) [] \<and>
   update_blog_post (call_by ''alice.near'' 0) ''seed1'' [(''author_id'', [])] registry_empty_denied =
     (Inl ErrSerializerNotAFunction, registry_empty_denied) \<and>
   ErrSerializerNotAFunction \<noteq> ErrDenylisted"
  by (simp add: update_blog_post_eq BlogPost_update_eq transfer_denied_def get_prop_def
      registry_empty_denied_def example_defs)

text \<open>
  Claim C6. \<open>BlogPost.update\<close> keeps \<open>id\<close>, \<open>created_at\<close> and \<open>last_updated_at\<close> and every
  mutable field the patch does not name, and for the post's author a patch
  \<open>{title: t}\<close> gives the post with \<open>title\<close> set to \<open>t\<close> and nothing else changed. The
  contract call does not deliver this: \<open>update_blog_post\<close> with that patch, by the
  registered author of an existing post, throws at the store with the registry as it
  was, and no call of \<open>update_blog_post\<close> returns at all.
\<close>

theorem update_changes_named_fields_only:
  "(BlogPost_update e u p = Inr p' \<longrightarrow>
      post_id p' = post_id p \<and> created_at p' = created_at p \<and>
      last_updated_at p' = last_updated_at p \<and>
      (''author_id'' \<notin> set (Object_keys u) \<longrightarrow> author_id p' = author_id p) \<and>
      (''title'' \<notin> set (Object_keys u) \<longrightarrow> title p' = title p) \<and>
      (''ipfs_cid'' \<notin> set (Object_keys u) \<longrightarrow> ipfs_cid p' = ipfs_cid p) \<and>
      (''thumnbnail_cid'' \<notin> set (Object_keys u) \<longrightarrow> thumnbnail_cid p' = thumnbnail_cid p)) \<and>
   (signerAccountId e = author_id p \<longrightarrow>
      BlogPost_update e [(''title'', t)] p = Inr (p\<lparr>title := t\<rparr>)) \<and>
   (uset_contains (authors s) (signerAccountId e) \<and> umap_get (blog_posts s) b = Some p \<and>
    signerAccountId e = author_id p \<longrightarrow>
      update_blog_post e b [(''title'', t)] s = (Inl ErrSerializerNotAFunction, s)) \<and>
   isl (fst (update_blog_post e b u s))"
proof (intro conjI impI)
  assume up: "BlogPost_update e u p = Inr p'"
  then have p': "p' = (if keys_accepted (Object_keys u) then patched u p else p)"
    by (simp add: BlogPost_update_eq split: if_splits)
  show "post_id p' = post_id p" "created_at p' = created_at p"
    "last_updated_at p' = last_updated_at p"
    by (simp_all add: p' patched_fixed)
  {
    assume "''author_id'' \<notin> set (Object_keys u)"
    then show "author_id p' = author_id p"
      by (simp add: p' patched_unlisted)
  }
  {
    assume "''title'' \<notin> set (Object_keys u)"
    then show "title p' = title p"
      by (simp add: p' patched_unlisted)
  }
  {
    assume "''ipfs_cid'' \<notin> set (Object_keys u)"
    then show "ipfs_cid p' = ipfs_cid p"
      by (simp add: p' patched_unlisted)
  }
  {
    assume "''thumnbnail_cid'' \<notin> set (Object_keys u)"
    then show "thumnbnail_cid p' = thumnbnail_cid p"
      by (simp add: p' patched_unlisted)
  }
next
  assume "signerAccountId e = author_id p"
  then show "BlogPost_update e [(''title'', t)] p = Inr (p\<lparr>title := t\<rparr>)"
    by (simp add: BlogPost_update_eq accepted_title_patch patched_title)
next
  assume h: "uset_contains (authors s) (signerAccountId e) \<and> umap_get (blog_posts s) b = Some p \<and>
    signerAccountId e = author_id p"
  then have a: "uset_contains (authors s) (signerAccountId e)"
    and g: "umap_get (blog_posts s) b = Some p"
    and q: "author_id p = signerAccountId e"
    by auto
  have nd: "\<not> transfer_denied [(''title'', t)] s"
    by (simp add: transfer_denied_def get_prop_def)
  have "BlogPost_update e [(''title'', t)] p = Inr (p\<lparr>title := t\<rparr>)"
    by (simp add: BlogPost_update_eq accepted_title_patch patched_title q)
  then show "update_blog_post e b [(''title'', t)] s = (Inl ErrSerializerNotAFunction, s)"
    using a g nd by (simp add: update_blog_post_eq)
next
  show "isl (fst (update_blog_post e b u s))"
    by (rule update_blog_post_rejected)
qed

text \<open>
  The title patch on the example post: applied to the post object, not stored; the
  stored title is still the old one.
\<close>

theorem update_changes_named_fields_only_witness:
  "BlogPost_update (call_by ''alice.near'' 0) [(''title'', ''New'')] alice_post =
     Inr (alice_post\<lparr>title := ''New''\<rparr>) \<and>
   created_at (alice_post\<lparr>title := ''New''\<rparr>) = created_at alice_post \<and>
   last_updated_at (alice_post\<lparr>title := ''New''\<rparr>) = last_updated_at alice_post \<and>
   author_id (alice_post\<lparr>title := ''New''\<rparr>) = author_id alice_post \<and>
   update_blog_post (call_by ''alice.near'' 0) ''seed1'' [(''title'', ''New'')] registry0 =
     (Inl ErrSerializerNotAFunction, registry0) \<and>
   umap_get (blog_posts registry0) ''seed1'' = Some alice_post \<and> title alice_post = ''Hello''"
proof -
  have h: "uset_contains (authors registry0) ''alice.near'' \<and>
      umap_get (blog_posts registry0) ''seed1'' = Some alice_post \<and>
      ''alice.near'' = author_id alice_post"
    by (simp add: example_defs)
  have o: "''author_id'' \<notin> set (Object_keys [(''title'', ''New'')])"
    by (simp add: Object_keys_def)
  note t = update_changes_named_fields_only
    [where e = "call_by ''alice.near'' 0" and t = "''New''" and u = "[(''title'', ''New'')]"
       and p = alice_post and p' = "alice_post\<lparr>title := ''New''\<rparr>" and s = registry0
       and b = "''seed1''", unfolded signer_call_by]
  from t h have up: "BlogPost_update (call_by ''alice.near'' 0) [(''title'', ''New'')] alice_post =
     Inr (alice_post\<lparr>title := ''New''\<rparr>)"
    by blast
  with t o have "created_at (alice_post\<lparr>title := ''New''\<rparr>) = created_at alice_post \<and>
      last_updated_at (alice_post\<lparr>title := ''New''\<rparr>) = last_updated_at alice_post \<and>
      author_id (alice_post\<lparr>title := ''New''\<rparr>) = author_id alice_post"
    by blast
  moreover from t h have
    "update_blog_post (call_by ''alice.near'' 0) ''seed1'' [(''title'', ''New'')] registry0 =
     (Inl ErrSerializerNotAFunction, registry0)"
    by blast
  moreover have "title alice_post = ''Hello''"
    by (simp add: alice_post_def)
  ultimately show ?thesis
    using up h by blast
qed

text \<open>
  Claim C7. An account outside the denylist that attaches exactly one yoctoNEAR is in the
  authors set after \<open>register\<close>; a second \<open>register\<close> from the state so reached
  succeeds and returns that very state, so the authors set and its size stay the same.
\<close>

theorem register_idempotent:
  assumes "\<not> uset_contains (denylist s) (signerAccountId e)"
    and "attachedDeposit e = 1"
  shows "fst (register e s) = Inr () \<and>
         uset_contains (authors (snd (register e s))) (signerAccountId e) \<and>
         register e (snd (register e s)) = (Inr (), snd (register e s)) \<and>
         authors (snd (register e (snd (register e s)))) = authors (snd (register e s)) \<and>
         length (authors (snd (register e (snd (register e s))))) = length (authors (snd (register e s)))"
  using assms by (simp add: register_eq uset_set_def uset_contains_def)

text \<open>An unregistered account registers twice on the example registry.\<close>

theorem register_idempotent_witness:
  "\<not> uset_contains (denylist registry0) ''bob.near'' \<and>
   fst (register (call_by ''bob.near'' 1) registry0) = Inr () \<and>
   authors (snd (register (call_by ''bob.near'' 1) registry0)) = [''alice.near'', ''bob.near''] \<and>
   register (call_by ''bob.near'' 1) (snd (register (call_by ''bob.near'' 1) registry0)) =
     (Inr (), snd (register (call_by ''bob.near'' 1) registry0))"
proof -
  have h1: "\<not> uset_contains (denylist registry0) (signerAccountId (call_by ''bob.near'' 1))"
    by (simp add: example_defs)
  have h2: "attachedDeposit (call_by ''bob.near'' 1) = 1"
    by (simp add: call_by_def)
  have "authors (snd (register (call_by ''bob.near'' 1) registry0)) = [''alice.near'', ''bob.near'']"
    by (simp add: register_eq example_defs uset_set_def)
  with register_idempotent [OF h1 h2] h1 show ?thesis
    by (simp add: call_by_def)
qed

text \<open>
  Claim C8, as amended. \<open>get_blog_posts\<close> restricts the stored sequence to the posts of
  \<open>author_id\<close> when a non-empty one is given and then takes \<open>slice(from, from + limit)\<close>,
  with \<open>limit = 20\<close> and \<open>from = 0\<close> when left out. For \<open>from\<close> and \<open>limit\<close> that are not
  negative this is the zero-based part \<open>from..from+limit\<close>; five posts of one author
  stored in order give the second and the third for \<open>limit = 2\<close>, \<open>from = 1\<close>; and a
  \<open>from\<close> at or beyond the end of the filtered sequence gives the empty list.
\<close>

theorem get_blog_posts_filter_then_slice:
  "(0 \<le> f \<and> 0 \<le> l \<longrightarrow>
      get_blog_posts (Some l) (Some f) author s = take (nat l) (drop (nat f) (posts_by author s))) \<and>
   get_blog_posts None from author s = get_blog_posts (Some 20) from author s \<and>
   get_blog_posts limit None author s = get_blog_posts limit (Some 0) author s \<and>
   (int (length (posts_by author s)) \<le> f \<longrightarrow> get_blog_posts limit (Some f) author s = []) \<and>
   (blog_posts s = [(k1, p1), (k2, p2), (k3, p3), (k4, p4), (k5, p5)] \<and>
    list_all (\<lambda>p. author_id p = a) [p1, p2, p3, p4, p5] \<and> a \<noteq> [] \<longrightarrow>
      get_blog_posts (Some 2) (Some 1) (Some a) s = [p2, p3])"
proof (intro conjI impI)
  assume "0 \<le> f \<and> 0 \<le> l"
  then show "get_blog_posts (Some l) (Some f) author s = take (nat l) (drop (nat f) (posts_by author s))"
    by (simp add: get_blog_posts_eq default_to_def slice_nonneg)
next
  show "get_blog_posts None from author s = get_blog_posts (Some 20) from author s"
    by (simp add: get_blog_posts_eq default_to_def)
  show "get_blog_posts limit None author s = get_blog_posts limit (Some 0) author s"
    by (simp add: get_blog_posts_eq default_to_def)
next
  assume "int (length (posts_by author s)) \<le> f"
  then show "get_blog_posts limit (Some f) author s = []"
    by (simp add: get_blog_posts_eq default_to_def slice_beyond)
next
  assume a: "blog_posts s = [(k1, p1), (k2, p2), (k3, p3), (k4, p4), (k5, p5)] \<and>
    list_all (\<lambda>p. author_id p = a) [p1, p2, p3, p4, p5] \<and> a \<noteq> []"
  then have "posts_by (Some a) s = [p1, p2, p3, p4, p5]"
    by (simp add: posts_by_def)
  then show "get_blog_posts (Some 2) (Some 1) (Some a) s = [p2, p3]"
    by (simp add: get_blog_posts_eq default_to_def slice_def)
qed

text \<open>Five posts created in order by \<open>alice.near\<close>.\<close>

theorem get_blog_posts_filter_then_slice_witness:
  "get_blog_posts (Some 2) (Some 1) (Some ''alice.near'') five_posts = [nth_post ''p2'', nth_post ''p3''] \<and>
   get_blog_posts (Some 2) (Some 1) (Some ''alice.near'') five_posts =
     take (nat 2) (drop (nat 1) (posts_by (Some ''alice.near'') five_posts)) \<and>
   get_blog_posts (Some 2) (Some 5) (Some ''alice.near'') five_posts = []"
proof -
  have n: "(0::int) \<le> 1 \<and> (0::int) \<le> 2"
    by simp
  have len: "int (length (posts_by (Some ''alice.near'') five_posts)) \<le> 5"
    by (simp add: posts_by_def five_posts_eq nth_post_author)
  have ex: "blog_posts five_posts =
      [(''p1'', nth_post ''p1''), (''p2'', nth_post ''p2''), (''p3'', nth_post ''p3''),
       (''p4'', nth_post ''p4''), (''p5'', nth_post ''p5'')] \<and>
     list_all (\<lambda>p. author_id p = ''alice.near'')
       [nth_post ''p1'', nth_post ''p2'', nth_post ''p3'', nth_post ''p4'', nth_post ''p5''] \<and>
     ''alice.near'' \<noteq> []"
    by (simp add: five_posts_eq nth_post_author)
  note t = get_blog_posts_filter_then_slice
    [where f = 1 and l = 2 and author = "Some ''alice.near''" and s = five_posts
       and ?k1.0 = "''p1''" and ?k2.0 = "''p2''" and ?k3.0 = "''p3''" and ?k4.0 = "''p4''"
       and ?k5.0 = "''p5''" and ?p1.0 = "nth_post ''p1''" and ?p2.0 = "nth_post ''p2''"
       and ?p3.0 = "nth_post ''p3''" and ?p4.0 = "nth_post ''p4''" and ?p5.0 = "nth_post ''p5''"
       and a = "''alice.near''"]
  note t5 = get_blog_posts_filter_then_slice
    [where f = 5 and limit = "Some 2" and author = "Some ''alice.near''" and s = five_posts]
  from t n ex have
    "get_blog_posts (Some 2) (Some 1) (Some ''alice.near'') five_posts =
       take (nat 2) (drop (nat 1) (posts_by (Some ''alice.near'') five_posts)) \<and>
     get_blog_posts (Some 2) (Some 1) (Some ''alice.near'') five_posts = [nth_post ''p2'', nth_post ''p3'']"
    by blast
  moreover from t5 len have "get_blog_posts (Some 2) (Some 5) (Some ''alice.near'') five_posts = []"
    by blast
  ultimately show ?thesis
    by blast
qed

text \<open>
  The claim as it was written gives the empty list for every \<open>from\<close> outside the
  sequence. \<open>slice\<close> counts a negative \<open>from\<close> from the end: \<open>from = -1\<close> returns the
  last post.
\<close>

theorem get_blog_posts_filter_then_slice_counterexample:
  "get_blog_posts None (Some (- 1)) (Some ''alice.near'') five_posts = [nth_post ''p5''] \<and>
   \<not> (0 \<le> (- 1 :: int) \<and> (- 1 :: int) < int (length (posts_by (Some ''alice.near'') five_posts)))"
  by (simp add: get_blog_posts_eq posts_by_def five_posts_eq nth_post_author default_to_def slice_def)

text \<open>
  Claim C9. For the registered author of an existing post and a patch with recognized
  keys only whose \<open>author_id\<close> is the empty string: the transfer guard does not fire,
  whatever the denylist holds, and \<open>BlogPost.update\<close> sets the \<open>author_id\<close> of the post
  object to the empty string. The store then throws, so the call is rejected and the
  stored post keeps its author.
\<close>

theorem empty_author_id_skips_denylist:
  assumes "uset_contains (authors s) (signerAccountId e)"
    and "umap_get (blog_posts s) blog_id = Some p"
    and "signerAccountId e = author_id p"
    and "get_prop u ''author_id'' = Some []"
    and "list_all (\<lambda>key. List.member updatable_keys key) (Object_keys u)"
  shows "\<not> transfer_denied u s \<and>
         BlogPost_update e u p = Inr (patched u p) \<and>
         author_id (patched u p) = [] \<and>
         update_blog_post e blog_id u s = (Inl ErrSerializerNotAFunction, s)"
proof -
  have acc: "keys_accepted (Object_keys u)"
    using assms(4,5) by (rule keys_accepted_author_id)
  have nd: "\<not> transfer_denied u s"
    using assms(4) by (simp add: transfer_denied_def)
  have bu: "BlogPost_update e u p = Inr (patched u p)"
    using assms(3) acc by (simp add: BlogPost_update_eq)
  then have upd: "update_blog_post e blog_id u s = (Inl ErrSerializerNotAFunction, s)"
    using assms(1,2) nd by (simp add: update_blog_post_eq)
  have "author_id (patched u p) = []"
    using assms(4) by (simp add: patched_def default_to_def)
  then show ?thesis
    using nd bu upd by blast
qed

text \<open>
  The example registry with the empty string in its denylist: no denylist error, the
  post object gets the empty \<open>author_id\<close>, and the stored post still belongs to
  \<open>alice.near\<close>.
\<close>

theorem empty_author_id_skips_denylist_witness:
  "uset_contains (denylist registry_empty_denied) [] \<and>
   BlogPost_update (call_by ''alice.near'' 0) [(''author_id'', [])] alice_post =
     Inr (alice_post\<lparr>author_id := []\<rparr>) \<and>
   update_blog_post (call_by ''alice.near'' 0) ''seed1'' [(''author_id'', [])] registry_empty_denied =
     (Inl ErrSerializerNotAFunction, registry_empty_denied) \<and>
   map_option author_id (umap_get (blog_posts registry_empty_denied) ''seed1'') = Some ''alice.near''"
proof -
  have h1: "uset_contains (authors registry_empty_denied) (signerAccountId (call_by ''alice.near'' 0))"
    by (simp add: registry_empty_denied_def example_defs)
  have h2: "umap_get (blog_posts registry_empty_denied) ''seed1'' = Some alice_post"
    by (simp add: registry_empty_denied_def example_defs)
  have h3: "signerAccountId (call_by ''alice.near'' 0) = author_id alice_post"
    by (simp add: example_defs)
  have h4: "get_prop [(''author_id'', [])] ''author_id'' = Some []"
    by (simp add: get_prop_def)
  have h5: "list_all (\<lambda>key. List.member updatable_keys key) (Object_keys [(''author_id'', [])])"
    by (simp add: Object_keys_def updatable_keys_def)
  have p: "patched [(''author_id'', [])] alice_post = alice_post\<lparr>author_id := []\<rparr>"
    by (simp add: patched_def get_prop_def default_to_def alice_post_def)
  have d: "uset_contains (denylist registry_empty_denied) []"
    by (simp add: registry_empty_denied_def example_defs)
  have a: "map_option author_id (umap_get (blog_posts registry_empty_denied) ''seed1'') = Some ''alice.near''"
    by (simp add: h2) (simp add: alice_post_def)
  show ?thesis
    using empty_author_id_skips_denylist [OF h1 h2 h3 h4 h5] d a by (simp add: p)
qed




end
